theory Spec2Isabelle
  imports Main "HOL-Library.AList"
begin

section \<open>Data model (types.ts)\<close>

text \<open>
  The interfaces of \<^verbatim>\<open>types.ts\<close> as records. JavaScript strings are modelled as
  \<^typ>\<open>string\<close>. The fields of \<^verbatim>\<open>PropertyInfo\<close> carry the prefix \<open>prop_\<close>, since
  \<^verbatim>\<open>name\<close> and \<^verbatim>\<open>description\<close> are already fields of \<^verbatim>\<open>ComponentInfo\<close>.
  A JavaScript \<^verbatim>\<open>Map\<close> is an association list in insertion order with unique keys:
  \<^verbatim>\<open>get\<close> is \<^const>\<open>map_of\<close>, \<^verbatim>\<open>set\<close> is \<^const>\<open>AList.update\<close> (an existing key keeps
  its position, a new key goes to the end), \<^verbatim>\<open>delete\<close> is \<^const>\<open>AList.delete\<close>.
\<close>

record ComponentInfo =
  slug :: string
  name :: string
  description :: string
  category :: string

record ComponentRegistry =
  components :: "ComponentInfo list"
  bySlug :: "(string \<times> ComponentInfo) list"

record PropertyInfo =
  prop_name :: string
  prop_type :: string
  prop_default :: string
  prop_required :: bool
  prop_description :: string

record PropertiesSection =
  heading :: string
  properties :: "PropertyInfo list"

record DevelopData =
  sections :: "PropertiesSection list"

text \<open>
  The store holds \<^verbatim>\<open>CacheEntry<unknown>\<close>: the values the program puts there are
  registries, raw texts and scraped property data. \<^verbatim>\<open>cacheGet<T>\<close> casts without a
  check, so a lookup hands back whatever value the entry holds.
\<close>

datatype cache_value =
    VString string
  | VRegistry ComponentRegistry
  | VDevelop DevelopData

record CacheEntry =
  entry_value :: cache_value
  expiresAt :: int

type_synonym store = "(string \<times> CacheEntry) list"

text \<open>JavaScript truthiness of a cached value: objects are truthy, a string is truthy
  unless it is empty.\<close>

fun truthy :: "cache_value \<Rightarrow> bool" where
  "truthy (VString s) = (s \<noteq> [])"
| "truthy (VRegistry r) = True"
| "truthy (VDevelop d) = True"


section \<open>The cache (services/cache.ts)\<close>

text \<open>Time-to-live classes, in milliseconds.\<close>

definition TTL_REGISTRY :: int where "TTL_REGISTRY = 60 * 60 * 1000"
definition TTL_MDX :: int where "TTL_MDX = 30 * 60 * 1000"
definition TTL_DEVELOP :: int where "TTL_DEVELOP = 120 * 60 * 1000"

text \<open>
  \<^verbatim>\<open>Date.now()\<close> is an argument (\<open>now\<close>, in milliseconds); the module-level \<^verbatim>\<open>store\<close>
  is passed in and returned. \<^verbatim>\<open>undefined\<close> is \<^const>\<open>None\<close>.
\<close>

definition cacheGet :: "string \<Rightarrow> int \<Rightarrow> store \<Rightarrow> cache_value option \<times> store" where
  "cacheGet key now st =
     (case map_of st key of
        None \<Rightarrow> (None, st)
      | Some entry \<Rightarrow>
          if now > expiresAt entry then (None, AList.delete key st)
          else (Some (entry_value entry), st))"

definition cacheSet :: "string \<Rightarrow> cache_value \<Rightarrow> int \<Rightarrow> int \<Rightarrow> store \<Rightarrow> store" where
  "cacheSet key v ttl now st =
     AList.update key \<lparr>entry_value = v, expiresAt = now + ttl\<rparr> st"


section \<open>The GitHub service (services/github.ts)\<close>

definition REPO :: string where "REPO = ''mittwald/flow''"
definition BRANCH :: string where "BRANCH = ''main''"
definition CONTENT_BASE :: string where
  "CONTENT_BASE = ''apps/docs/src/content/04-components''"
definition RAW_BASE :: string where
  "RAW_BASE = ''https://raw.githubusercontent.com/'' @ REPO @ ''/'' @ BRANCH"

record TreeEntry =
  path :: string
  entry_type :: string

text \<open>
  Every \<^verbatim>\<open>throw\<close> and every rejected promise is a value of \<open>error\<close>:
  \<open>FetchRejected\<close> is \<^verbatim>\<open>fetch\<close> itself rejecting (no response at all),
  \<open>GitHubApiError\<close> and \<open>GitHubRawFetchError\<close> are the two \<^verbatim>\<open>new Error\<close> of the
  service with the status and status text they print, \<open>BodyError\<close> is \<^verbatim>\<open>res.json()\<close> or
  \<^verbatim>\<open>res.text()\<close> rejecting, \<open>TypeError\<close> is a property read on a value that does not
  have it, \<open>BrowserError\<close> is a rejection of a Playwright call with its message.
\<close>

datatype error =
    FetchRejected
  | GitHubApiError nat string
  | GitHubRawFetchError nat string
  | BodyError
  | TypeError
  | BrowserError string

text \<open>
  What \<^verbatim>\<open>fetch(url)\<close> settles to: a rejection, or a response with its status, its
  status text and its decoded body (\<^const>\<open>None\<close> when reading the body fails).
  \<^verbatim>\<open>res.ok\<close> is a status in the range 200 to 299. The network is a function from the
  URL to what the fetch of it settles to.
\<close>

datatype 'a fetched = Rejected | Response nat string "'a option"

definition ok :: "nat \<Rightarrow> bool" where
  "ok st = (200 \<le> st \<and> st \<le> 299)"

definition fetchJson :: "(string \<Rightarrow> 'a fetched) \<Rightarrow> string \<Rightarrow> error + 'a" where
  "fetchJson net url =
     (case net url of
        Rejected \<Rightarrow> Inl FetchRejected
      | Response st txt b \<Rightarrow>
          if \<not> ok st then Inl (GitHubApiError st txt)
          else (case b of None \<Rightarrow> Inl BodyError | Some j \<Rightarrow> Inr j))"

text \<open>\<^verbatim>\<open>null\<close> (status 404) is \<^term>\<open>Inr None\<close>.\<close>

definition fetchRaw :: "(string \<Rightarrow> string fetched) \<Rightarrow> string \<Rightarrow> error + string option" where
  "fetchRaw net url =
     (case net url of
        Rejected \<Rightarrow> Inl FetchRejected
      | Response st txt b \<Rightarrow>
          if st = 404 then Inr None
          else if \<not> ok st then Inl (GitHubRawFetchError st txt)
          else (case b of None \<Rightarrow> Inl BodyError | Some t \<Rightarrow> Inr (Some t)))"

text \<open>
  \<^verbatim>\<open>if (cached) return cached\<close>: a lookup counts as a hit when it found a truthy value.
\<close>

definition hit :: "cache_value option \<Rightarrow> cache_value option" where
  "hit cached = (case cached of None \<Rightarrow> None | Some v \<Rightarrow> if truthy v then Some v else None)"

text \<open>
  The index pattern \<^verbatim>\<open>^${CONTENT_BASE}/([^/]+)/([^/]+)/index\.mdx$\<close>, matched by hand:
  the content base and a slash, a non-empty run of non-slash characters (the category), a
  slash, a second such run (the slug), and then exactly \<^verbatim>\<open>/index.mdx\<close> up to the end
  of the path.
\<close>

fun stripPrefix :: "string \<Rightarrow> string \<Rightarrow> string option" where
  "stripPrefix [] s = Some s"
| "stripPrefix (p # ps) [] = None"
| "stripPrefix (p # ps) (c # cs) = (if p = c then stripPrefix ps cs else None)"

definition notSlash :: "char \<Rightarrow> bool" where
  "notSlash c = (c \<noteq> CHR ''/'')"

definition matchIndexPattern :: "string \<Rightarrow> (string \<times> string) option" where
  "matchIndexPattern p =
     (case stripPrefix (CONTENT_BASE @ ''/'') p of
        None \<Rightarrow> None
      | Some r1 \<Rightarrow>
          (case dropWhile notSlash r1 of
             [] \<Rightarrow> None
           | s1 # r2 \<Rightarrow>
               if takeWhile notSlash r1 = [] \<or> takeWhile notSlash r2 = []
                  \<or> dropWhile notSlash r2 \<noteq> ''/index.mdx''
               then None
               else Some (takeWhile notSlash r1, takeWhile notSlash r2)))"

text \<open>The loop over \<^verbatim>\<open>tree.tree\<close> that collects the (category, slug) pairs, in tree order.\<close>

definition treeEntries :: "TreeEntry list \<Rightarrow> (string \<times> string) list" where
  "treeEntries tree = List.map_filter (\<lambda>entry. matchIndexPattern (path entry)) tree"

definition treeUrl :: string where
  "treeUrl = ''https://api.github.com/repos/'' @ REPO @ ''/git/trees/'' @ BRANCH @ ''?recursive=1''"

definition indexUrl :: "string \<Rightarrow> string \<Rightarrow> string" where
  "indexUrl cat sl = RAW_BASE @ ''/'' @ CONTENT_BASE @ ''/'' @ cat @ ''/'' @ sl @ ''/index.mdx''"

text \<open>
  The body of the \<^verbatim>\<open>entries.map(async ...)\<close> callback for one entry. The header parser
  \<^verbatim>\<open>parseFrontmatter\<close> (regular expressions over the document text) is the argument
  \<open>parse\<close>, giving the pair (component, description); everything below holds for every
  parser. \<^verbatim>\<open>!raw\<close> is true for \<^verbatim>\<open>null\<close> and for the empty text.
\<close>

definition fetchComponent ::
  "(string \<Rightarrow> string \<times> string) \<Rightarrow> (string \<Rightarrow> string fetched) \<Rightarrow> string \<times> string
     \<Rightarrow> error + ComponentInfo" where
  "fetchComponent parse net e =
     (case e of (cat, sl) \<Rightarrow>
        (case fetchRaw net (indexUrl cat sl) of
           Inl err \<Rightarrow> Inl err
         | Inr raw \<Rightarrow>
             (case raw of
                None \<Rightarrow> Inr \<lparr>slug = sl, name = sl, description = [], category = cat\<rparr>
              | Some txt \<Rightarrow>
                  if txt = [] then Inr \<lparr>slug = sl, name = sl, description = [], category = cat\<rparr>
                  else (case parse txt of (component, descr) \<Rightarrow>
                          Inr \<lparr>slug = sl, name = (if component \<noteq> [] then component else sl),
                               description = descr, category = cat\<rparr>))))"

text \<open>
  \<^verbatim>\<open>Promise.all\<close>: all results in the order of the inputs, or a rejection when one of
  them rejects. The model reports the first rejection in list order (in the program it is
  the first in time).
\<close>

fun promise_all :: "(error + 'a) list \<Rightarrow> error + 'a list" where
  "promise_all [] = Inr []"
| "promise_all (Inl e # rs) = Inl e"
| "promise_all (Inr x # rs) =
     (case promise_all rs of Inl e \<Rightarrow> Inl e | Inr xs \<Rightarrow> Inr (x # xs))"

definition buildBySlug :: "ComponentInfo list \<Rightarrow> (string \<times> ComponentInfo) list" where
  "buildBySlug cs = fold (\<lambda>c m. AList.update (slug c) c m) cs []"

text \<open>
  \<open>t_get\<close> is the clock at the \<^verbatim>\<open>cacheGet\<close>, \<open>t_set\<close> the clock at the \<^verbatim>\<open>cacheSet\<close>.
\<close>

definition getRegistry ::
  "(string \<Rightarrow> string \<times> string) \<Rightarrow> (string \<Rightarrow> TreeEntry list fetched) \<Rightarrow> (string \<Rightarrow> string fetched)
     \<Rightarrow> int \<Rightarrow> int \<Rightarrow> store \<Rightarrow> (error + cache_value) \<times> store" where
  "getRegistry parse api net t_get t_set st =
     (case cacheGet ''registry'' t_get st of (cached, st0) \<Rightarrow>
        (case hit cached of
           Some v \<Rightarrow> (Inr v, st0)
         | None \<Rightarrow>
             (case fetchJson api treeUrl of
                Inl e \<Rightarrow> (Inl e, st0)
              | Inr tree \<Rightarrow>
                  (case promise_all (map (fetchComponent parse net) (treeEntries tree)) of
                     Inl e \<Rightarrow> (Inl e, st0)
                   | Inr cs \<Rightarrow>
                       (Inr (VRegistry \<lparr>components = cs, bySlug = buildBySlug cs\<rparr>),
                        cacheSet ''registry'' (VRegistry \<lparr>components = cs, bySlug = buildBySlug cs\<rparr>)
                          TTL_REGISTRY t_set st0)))))"

text \<open>
  \<^verbatim>\<open>category?: string\<close> is a \<^typ>\<open>string option\<close>; \<^verbatim>\<open>if (category)\<close> is false for
  \<^verbatim>\<open>undefined\<close> and for the empty string. The result \<^verbatim>\<open>{category, slug}\<close> is the pair
  (category, slug), \<^verbatim>\<open>null\<close> is \<^const>\<open>None\<close>. Reading \<^verbatim>\<open>bySlug\<close> off a cached value that
  is not a registry gives \<^verbatim>\<open>undefined\<close>, and the call of \<^verbatim>\<open>get\<close> on it is a TypeError.
\<close>

definition resolveCategory ::
  "(string \<Rightarrow> string \<times> string) \<Rightarrow> (string \<Rightarrow> TreeEntry list fetched) \<Rightarrow> (string \<Rightarrow> string fetched)
     \<Rightarrow> int \<Rightarrow> int \<Rightarrow> string \<Rightarrow> string option \<Rightarrow> store
     \<Rightarrow> (error + (string \<times> string) option) \<times> store" where
  "resolveCategory parse api net t_get t_set component cat st =
     (if (case cat of None \<Rightarrow> False | Some c \<Rightarrow> c \<noteq> [])
      then (Inr (Some (the cat, component)), st)
      else (case getRegistry parse api net t_get t_set st of
              (Inl e, st') \<Rightarrow> (Inl e, st')
            | (Inr (VRegistry registry), st') \<Rightarrow>
                (case map_of (bySlug registry) component of
                   Some info \<Rightarrow> (Inr (Some (category info, slug info)), st')
                 | None \<Rightarrow> (Inr None, st'))
            | (Inr _, st') \<Rightarrow> (Inl TypeError, st')))"

text \<open>
  \<^verbatim>\<open>toLowerCase\<close> on the ASCII letters (the other characters are left as they are) and
  \<^verbatim>\<open>String.prototype.includes\<close>.
\<close>

definition lowerChar :: "char \<Rightarrow> char" where
  "lowerChar c =
     (case map_of (zip ''ABCDEFGHIJKLMNOPQRSTUVWXYZ'' ''abcdefghijklmnopqrstuvwxyz'') c of
        Some l \<Rightarrow> l
      | None \<Rightarrow> c)"

definition toLowerCase :: "string \<Rightarrow> string" where
  "toLowerCase s = map lowerChar s"

fun includes_str :: "string \<Rightarrow> string \<Rightarrow> bool" where
  "includes_str [] sub = (sub = [])"
| "includes_str (c # cs) sub = (stripPrefix sub (c # cs) \<noteq> None \<or> includes_str cs sub)"

definition suggestComponent :: "string \<Rightarrow> ComponentRegistry \<Rightarrow> string list" where
  "suggestComponent input registry =
     map slug
       (take 5
          (filter (\<lambda>c. includes_str (slug c) (toLowerCase input)
                       \<or> includes_str (toLowerCase (name c)) (toLowerCase input))
             (components registry)))"

datatype tab = Overview | Guidelines | Develop

fun tabName :: "tab \<Rightarrow> string" where
  "tabName Overview = ''overview''"
| "tabName Guidelines = ''guidelines''"
| "tabName Develop = ''develop''"

definition mdxKey :: "string \<Rightarrow> string \<Rightarrow> tab \<Rightarrow> string" where
  "mdxKey cat component t = ''mdx:'' @ cat @ ''/'' @ component @ ''/'' @ tabName t"

definition mdxUrl :: "string \<Rightarrow> string \<Rightarrow> tab \<Rightarrow> string" where
  "mdxUrl cat component t =
     RAW_BASE @ ''/'' @ CONTENT_BASE @ ''/'' @ cat @ ''/'' @ component @ ''/'' @ tabName t @ ''.mdx''"

text \<open>
  The result is \<^verbatim>\<open>string | null\<close>; on a hit it is the cached value as it is.
  \<^verbatim>\<open>if (content)\<close> is false for \<^verbatim>\<open>null\<close> and for the empty text.
\<close>

definition fetchMdx ::
  "(string \<Rightarrow> string fetched) \<Rightarrow> int \<Rightarrow> int \<Rightarrow> string \<Rightarrow> string \<Rightarrow> tab \<Rightarrow> store
     \<Rightarrow> (error + cache_value option) \<times> store" where
  "fetchMdx net t_get t_set cat component t st =
     (case cacheGet (mdxKey cat component t) t_get st of (cached, st0) \<Rightarrow>
        (case hit cached of
           Some v \<Rightarrow> (Inr (Some v), st0)
         | None \<Rightarrow>
             (case fetchRaw net (mdxUrl cat component t) of
                Inl e \<Rightarrow> (Inl e, st0)
              | Inr content \<Rightarrow>
                  (case content of
                     None \<Rightarrow> (Inr None, st0)
                   | Some txt \<Rightarrow>
                       (Inr (Some (VString txt)),
                        if txt \<noteq> []
                        then cacheSet (mdxKey cat component t) (VString txt) TTL_MDX t_set st0
                        else st0)))))"






section \<open>The scraper (services/scraper.ts)\<close>

definition SITE_BASE :: string where
  "SITE_BASE = ''https://mittwald.github.io/flow''"

text \<open>
  The browser is the environment of one call of \<^verbatim>\<open>scrapeDevelop\<close>: what each awaited
  Playwright call settles to, in the order the program makes them. A call that only
  fulfils or rejects is an \<^typ>\<open>error option\<close> (\<^const>\<open>None\<close>: fulfilled); a call with a
  result is a sum. One accordion element carries the outcomes of the calls made on it:
  the heading read, the expanded test, the query for the header button (is there one),
  the click, the wait for the inner table, and the read of the rows.
\<close>

record Accordion =
  acc_heading :: "error + string"
  acc_isExpanded :: "error + bool"
  acc_button :: "error + bool"
  acc_click :: "error option"
  acc_wait :: "error option"
  acc_props :: "error + PropertyInfo list"

record Browser =
  isConnected :: bool
  launch :: "error option"
  newContext :: "error option"
  route :: "error option"
  newPage :: "error option"
  goto :: "string \<Rightarrow> error option"
  waitForSelector :: "error option"
  extractTable :: "error + PropertyInfo list"
  accordions :: "error + Accordion list"
  close :: "error option"

text \<open>
  The state of the module and of the browser process: the cache, whether the module
  variable \<^verbatim>\<open>browser\<close> holds a handle, how many browsing contexts have been created
  (\<^verbatim>\<open>newContext()\<close> fulfilling creates one) and how many have been closed (by a call
  of \<^verbatim>\<open>context.close()\<close>).
\<close>

record world =
  cache :: store
  browser :: bool
  contextsCreated :: nat
  contextsClosed :: nat

definition getBrowser :: "Browser \<Rightarrow> world \<Rightarrow> error option \<times> world" where
  "getBrowser b w =
     (if \<not> browser w \<or> \<not> isConnected b
      then (case launch b of
              Some e \<Rightarrow> (Some e, w)
            | None \<Rightarrow> (None, w\<lparr>browser := True\<rparr>))
      else (None, w))"

text \<open>
  One pass of the loop over the accordions. The rejection of the wait for the inner table
  is swallowed by \<^verbatim>\<open>.catch(() => {})\<close>. The result is the section to push, if any.
\<close>

definition expandAccordion :: "Accordion \<Rightarrow> error option" where
  "expandAccordion a =
     (case acc_button a of
        Inl e \<Rightarrow> Some e
      | Inr found \<Rightarrow>
          if found
          then (case acc_click a of
                  Some e \<Rightarrow> Some e
                | None \<Rightarrow> (case acc_wait a of Some e \<Rightarrow> None | None \<Rightarrow> None))
          else None)"

definition scrapeAccordion :: "Accordion \<Rightarrow> error + PropertiesSection option" where
  "scrapeAccordion a =
     (case acc_heading a of
        Inl e \<Rightarrow> Inl e
      | Inr h \<Rightarrow>
          (case acc_isExpanded a of
             Inl e \<Rightarrow> Inl e
           | Inr isExpanded \<Rightarrow>
               (case (if \<not> isExpanded then expandAccordion a else None) of
                  Some e \<Rightarrow> Inl e
                | None \<Rightarrow>
                    (case acc_props a of
                       Inl e \<Rightarrow> Inl e
                     | Inr props \<Rightarrow>
                         if props \<noteq> []
                         then Inr (Some \<lparr>heading = (if h \<noteq> [] then h else ''Other''),
                                         properties = props\<rparr>)
                         else Inr None))))"

fun scrapeAccordions ::
  "Accordion list \<Rightarrow> PropertiesSection list \<Rightarrow> error + PropertiesSection list" where
  "scrapeAccordions [] secs = Inr secs"
| "scrapeAccordions (a # as) secs =
     (case scrapeAccordion a of
        Inl e \<Rightarrow> Inl e
      | Inr None \<Rightarrow> scrapeAccordions as secs
      | Inr (Some s) \<Rightarrow> scrapeAccordions as (secs @ [s]))"

definition developUrl :: "string \<Rightarrow> string \<Rightarrow> string" where
  "developUrl cat component =
     SITE_BASE @ ''/04-components/'' @ cat @ ''/'' @ component @ ''/develop''"

text \<open>The \<^verbatim>\<open>try\<close> block up to the assembled data: navigation, the wait for the first
  table, the main table, the accordions.\<close>

definition extractSections :: "Browser \<Rightarrow> string \<Rightarrow> string \<Rightarrow> error + DevelopData" where
  "extractSections b cat component =
     (case goto b (developUrl cat component) of
        Some e \<Rightarrow> Inl e
      | None \<Rightarrow>
          (case waitForSelector b of
             Some e \<Rightarrow> Inl e
           | None \<Rightarrow>
               (case extractTable b of
                  Inl e \<Rightarrow> Inl e
                | Inr mainProps \<Rightarrow>
                    (case accordions b of
                       Inl e \<Rightarrow> Inl e
                     | Inr accs \<Rightarrow>
                         (case scrapeAccordions accs
                                 (if mainProps \<noteq> []
                                  then [\<lparr>heading = ''Properties'', properties = mainProps\<rparr>]
                                  else []) of
                            Inl e \<Rightarrow> Inl e
                          | Inr secs \<Rightarrow> Inr \<lparr>sections = secs\<rparr>)))))"

definition developKey :: "string \<Rightarrow> string \<Rightarrow> string" where
  "developKey cat component = ''develop:'' @ cat @ ''/'' @ component"

text \<open>
  \<^verbatim>\<open>try { ... } finally { await context.close(); }\<close>: the block runs, with the
  \<^verbatim>\<open>cacheSet\<close> as its last step when it got that far; then \<^verbatim>\<open>close\<close> is called, and
  its rejection, if any, replaces the outcome of the block.
\<close>

definition tryFinally ::
  "Browser \<Rightarrow> int \<Rightarrow> string \<Rightarrow> string \<Rightarrow> world \<Rightarrow> (error + cache_value) \<times> world" where
  "tryFinally b t_set cat component w =
     (case extractSections b cat component of
        Inl e \<Rightarrow>
          (case close b of
             Some e' \<Rightarrow> (Inl e', w\<lparr>contextsClosed := contextsClosed w + 1\<rparr>)
           | None \<Rightarrow> (Inl e, w\<lparr>contextsClosed := contextsClosed w + 1\<rparr>))
      | Inr data \<Rightarrow>
          (case close b of
             Some e' \<Rightarrow>
               (Inl e', w\<lparr>cache := cacheSet (developKey cat component) (VDevelop data)
                                       TTL_DEVELOP t_set (cache w),
                          contextsClosed := contextsClosed w + 1\<rparr>)
           | None \<Rightarrow>
               (Inr (VDevelop data),
                w\<lparr>cache := cacheSet (developKey cat component) (VDevelop data)
                               TTL_DEVELOP t_set (cache w),
                  contextsClosed := contextsClosed w + 1\<rparr>)))"

definition scrapeDevelop ::
  "Browser \<Rightarrow> int \<Rightarrow> int \<Rightarrow> string \<Rightarrow> string \<Rightarrow> world \<Rightarrow> (error + cache_value) \<times> world" where
  "scrapeDevelop b t_get t_set cat component w =
     (case cacheGet (developKey cat component) t_get (cache w) of (cached, st0) \<Rightarrow>
        (case hit cached of
           Some v \<Rightarrow> (Inr v, w\<lparr>cache := st0\<rparr>)
         | None \<Rightarrow>
             (case getBrowser b (w\<lparr>cache := st0\<rparr>) of
                (Some e, w1) \<Rightarrow> (Inl e, w1)
              | (None, w1) \<Rightarrow>
                  (case newContext b of
                     Some e \<Rightarrow> (Inl e, w1)
                   | None \<Rightarrow>
                       (case route b of
                          Some e \<Rightarrow> (Inl e, w1\<lparr>contextsCreated := contextsCreated w1 + 1\<rparr>)
                        | None \<Rightarrow>
                            (case newPage b of
                               Some e \<Rightarrow> (Inl e, w1\<lparr>contextsCreated := contextsCreated w1 + 1\<rparr>)
                             | None \<Rightarrow>
                                 tryFinally b t_set cat component
                                   (w1\<lparr>contextsCreated := contextsCreated w1 + 1\<rparr>)))))))"

text \<open>
  \<^verbatim>\<open>formatDevelopData\<close>. \<^verbatim>\<open>replace(/\|/g, "\\|")\<close> puts a backslash before every pipe;
  \<^verbatim>\<open>parts.join("\n")\<close> puts a line feed between the parts.
\<close>

definition escapePipes :: "string \<Rightarrow> string" where
  "escapePipes s = concat (map (\<lambda>c. if c = CHR ''|'' then [CHR 0x5C, CHR ''|''] else [c]) s)"

fun join :: "string \<Rightarrow> string list \<Rightarrow> string" where
  "join sep [] = []"
| "join sep [p] = p"
| "join sep (p # q # ps) = p @ sep @ join sep (q # ps)"

definition formatRow :: "PropertyInfo \<Rightarrow> string" where
  "formatRow prop =
     ''| `'' @ prop_name prop @ ''` | '' @ escapePipes (prop_type prop) @ '' | ''
       @ escapePipes (prop_default prop) @ '' | '' @ escapePipes (prop_description prop) @ '' |''"

definition formatSection :: "PropertiesSection \<Rightarrow> string list" where
  "formatSection section =
     [''## '' @ heading section @ [CHR 0x0A],
      ''| Property | Type | Default | Description |'',
      ''|----------|------|---------|-------------|'']
     @ map formatRow (properties section) @ [[]]"

definition formatDevelopData :: "DevelopData \<Rightarrow> string" where
  "formatDevelopData data =
     (if sections data = [] then ''No property data found for this component.''
      else join [CHR 0x0A] (concat (map formatSection (sections data))))"


section \<open>Reference definitions\<close>

text \<open>
  The suggestion rule in the words of the specification, for comparison with
  \<^const>\<open>suggestComponent\<close>: a component matches when its slug or its display name
  contains the input, both sides compared without regard to case.
\<close>

definition suggestComponent_spec :: "string \<Rightarrow> ComponentRegistry \<Rightarrow> string list" where
  "suggestComponent_spec input registry =
     map slug
       (take 5
          (filter (\<lambda>c. includes_str (toLowerCase (slug c)) (toLowerCase input)
                       \<or> includes_str (toLowerCase (name c)) (toLowerCase input))
             (components registry)))"

text \<open>
  The column structure of a rendered table row: the number of pipes that are not escaped,
  a pipe being escaped when the character before it is a backslash.
\<close>

fun pipesFrom :: "bool \<Rightarrow> string \<Rightarrow> nat" where
  "pipesFrom esc [] = 0"
| "pipesFrom esc (c # cs) =
     (if c = CHR ''|'' \<and> \<not> esc then 1 else 0) + pipesFrom (c = CHR 0x5C) cs"

definition unescapedPipes :: "string \<Rightarrow> nat" where
  "unescapedPipes s = pipesFrom False s"


section \<open>Concrete inputs\<close>

text \<open>Inputs at which the theorems below are instantiated and the program is run.\<close>

definition emptyWorld :: world where
  "emptyWorld = \<lparr>cache = [], browser = False, contextsCreated = 0, contextsClosed = 0\<rparr>"


definition pageFailsBrowser :: Browser where
  "pageFailsBrowser =
     \<lparr>isConnected = True, launch = None, newContext = None, route = None,
      newPage = Some (BrowserError ''browserContext.newPage: Target closed''),
      goto = (\<lambda>url. None), waitForSelector = None, extractTable = Inr [],
      accordions = Inr [], close = None\<rparr>"

definition offline :: "string \<Rightarrow> 'a fetched" where
  "offline url = Rejected"

definition notFoundNet :: "string \<Rightarrow> string fetched" where
  "notFoundNet url = Response 404 ''Not Found'' None"

definition serverErrorNet :: "string \<Rightarrow> string fetched" where
  "serverErrorNet url = Response 500 ''Internal Server Error'' None"

definition docNet :: "string \<Rightarrow> string fetched" where
  "docNet url = Response 200 ''OK'' (Some ''# Button'')"

definition emptyDocNet :: "string \<Rightarrow> string fetched" where
  "emptyDocNet url = Response 200 ''OK'' (Some [])"

definition noHeader :: "string \<Rightarrow> string \<times> string" where
  "noHeader mdx = ([], [])"

definition buttonInfo :: ComponentInfo where
  "buttonInfo = \<lparr>slug = ''button'', name = ''Button'', description = [], category = ''actions''\<rparr>"

definition buttonStore :: store where
  "buttonStore =
     [(''registry'',
       \<lparr>entry_value = VRegistry \<lparr>components = [buttonInfo], bySlug = [(''button'', buttonInfo)]\<rparr>,
        expiresAt = 100\<rparr>)]"

definition datePickerRegistry :: ComponentRegistry where
  "datePickerRegistry =
     \<lparr>components = [\<lparr>slug = ''DatePicker'', name = ''Date Picker'', description = [],
                      category = ''date''\<rparr>],
      bySlug = [(''DatePicker'', \<lparr>slug = ''DatePicker'', name = ''Date Picker'', description = [],
                      category = ''date''\<rparr>)]\<rparr>"

definition dupTree :: "TreeEntry list" where
  "dupTree =
     [\<lparr>path = ''apps/docs/src/content/04-components/actions/button/index.mdx'',
       entry_type = ''blob''\<rparr>,
      \<lparr>path = ''apps/docs/src/content/04-components/forms/button/index.mdx'',
       entry_type = ''blob''\<rparr>,
      \<lparr>path = ''README.md'', entry_type = ''blob''\<rparr>]"

definition dupApi :: "string \<Rightarrow> TreeEntry list fetched" where
  "dupApi url = Response 200 ''OK'' (Some dupTree)"

definition actionsButton :: ComponentInfo where
  "actionsButton = \<lparr>slug = ''button'', name = ''button'', description = [], category = ''actions''\<rparr>"

definition formsButton :: ComponentInfo where
  "formsButton = \<lparr>slug = ''button'', name = ''button'', description = [], category = ''forms''\<rparr>"

definition pipeNameRow :: PropertyInfo where
  "pipeNameRow =
     \<lparr>prop_name = ''a|b'', prop_type = ''string | number'', prop_default = ''-'',
      prop_required = False, prop_description = ''d''\<rparr>"

definition pipeNameData :: DevelopData where
  "pipeNameData = \<lparr>sections = [\<lparr>heading = ''Properties'', properties = [pipeNameRow]\<rparr>]\<rparr>"





section \<open>The hand-written string functions\<close>

text \<open>
  \<^const>\<open>stripPrefix\<close> removes a prefix, \<^const>\<open>includes_str\<close> is the substring test, and
  \<^const>\<open>matchIndexPattern\<close> accepts exactly the paths of the shape of the index pattern,
  with the two groups it captures.
\<close>

lemma stripPrefix_Some_iff: "stripPrefix p s = Some r \<longleftrightarrow> s = p @ r"
  by (induction p s rule: stripPrefix.induct) auto

lemma includes_str_iff: "includes_str s sub \<longleftrightarrow> (\<exists>ps ss. s = ps @ sub @ ss)"
proof (induction s)
  case Nil
  show ?case by auto
next
  case (Cons c cs)
  have "includes_str (c # cs) sub \<longleftrightarrow> (\<exists>ss. c # cs = sub @ ss) \<or> (\<exists>ps ss. cs = ps @ sub @ ss)"
    using Cons.IH by (auto simp: stripPrefix_Some_iff)
  also have "\<dots> \<longleftrightarrow> (\<exists>ps ss. c # cs = ps @ sub @ ss)"
  proof
    assume "(\<exists>ss. c # cs = sub @ ss) \<or> (\<exists>ps ss. cs = ps @ sub @ ss)"
    then show "\<exists>ps ss. c # cs = ps @ sub @ ss"
    proof
      assume "\<exists>ss. c # cs = sub @ ss"
      then obtain ss where "c # cs = [] @ sub @ ss" by auto
      then show ?thesis by blast
    next
      assume "\<exists>ps ss. cs = ps @ sub @ ss"
      then obtain ps ss where "c # cs = (c # ps) @ sub @ ss" by auto
      then show ?thesis by blast
    qed
  next
    assume "\<exists>ps ss. c # cs = ps @ sub @ ss"
    then obtain ps ss where eq: "c # cs = ps @ sub @ ss" by blast
    show "(\<exists>ss. c # cs = sub @ ss) \<or> (\<exists>ps ss. cs = ps @ sub @ ss)"
    proof (cases ps)
      case Nil
      then show ?thesis using eq by auto
    next
      case (Cons p ps')
      then have "cs = ps' @ sub @ ss" using eq by simp
      then show ?thesis by blast
    qed
  qed
  finally show ?case .
qed

lemma matchIndexPattern_iff:
  "matchIndexPattern p = Some (cat, sl) \<longleftrightarrow>
     cat \<noteq> [] \<and> sl \<noteq> [] \<and> CHR ''/'' \<notin> set cat \<and> CHR ''/'' \<notin> set sl
     \<and> p = CONTENT_BASE @ ''/'' @ cat @ ''/'' @ sl @ ''/index.mdx''"
proof
  assume m: "matchIndexPattern p = Some (cat, sl)"
  then obtain r1 where r1: "stripPrefix (CONTENT_BASE @ ''/'') p = Some r1"
    by (auto simp: matchIndexPattern_def split: option.splits)
  then have p: "p = (CONTENT_BASE @ ''/'') @ r1"
    by (simp only: stripPrefix_Some_iff)
  from m r1 obtain s1 r2 where d1: "dropWhile notSlash r1 = s1 # r2"
    by (auto simp: matchIndexPattern_def split: list.splits)
  from m r1 d1 have cat: "cat = takeWhile notSlash r1" and sl: "sl = takeWhile notSlash r2"
    and ne: "cat \<noteq> []" "sl \<noteq> []" and tl: "dropWhile notSlash r2 = ''/index.mdx''"
    by (auto simp: matchIndexPattern_def split: if_splits)
  have s1: "s1 = CHR ''/''"
    using hd_dropWhile [of notSlash r1] d1 by (simp add: notSlash_def)
  have "r1 = takeWhile notSlash r1 @ dropWhile notSlash r1" by simp
  then have e1: "r1 = cat @ CHR ''/'' # r2" using d1 s1 cat by simp
  have "r2 = takeWhile notSlash r2 @ dropWhile notSlash r2" by simp
  then have e2: "r2 = sl @ ''/index.mdx''" using tl sl by simp
  have "CHR ''/'' \<notin> set cat" "CHR ''/'' \<notin> set sl"
    using set_takeWhileD [of "CHR ''/''" notSlash] cat sl by (auto simp: notSlash_def)
  then show "cat \<noteq> [] \<and> sl \<noteq> [] \<and> CHR ''/'' \<notin> set cat \<and> CHR ''/'' \<notin> set sl
     \<and> p = CONTENT_BASE @ ''/'' @ cat @ ''/'' @ sl @ ''/index.mdx''"
    using ne p e1 e2 by simp
next
  assume a: "cat \<noteq> [] \<and> sl \<noteq> [] \<and> CHR ''/'' \<notin> set cat \<and> CHR ''/'' \<notin> set sl
     \<and> p = CONTENT_BASE @ ''/'' @ cat @ ''/'' @ sl @ ''/index.mdx''"
  then have "p = (CONTENT_BASE @ ''/'') @ (cat @ CHR ''/'' # sl @ ''/index.mdx'')" by simp
  then have r1: "stripPrefix (CONTENT_BASE @ ''/'') p = Some (cat @ CHR ''/'' # sl @ ''/index.mdx'')"
    by (simp only: stripPrefix_Some_iff)
  have c: "\<And>x. x \<in> set cat \<Longrightarrow> notSlash x" and s: "\<And>x. x \<in> set sl \<Longrightarrow> notSlash x"
    using a by (auto simp: notSlash_def)
  have t1: "takeWhile notSlash (cat @ CHR ''/'' # sl @ ''/index.mdx'') = cat"
    using c by (simp add: takeWhile_append2 notSlash_def)
  have d1: "dropWhile notSlash (cat @ CHR ''/'' # sl @ ''/index.mdx'') = CHR ''/'' # sl @ ''/index.mdx''"
    using c by (simp add: dropWhile_append2 notSlash_def)
  have t2: "takeWhile notSlash (sl @ ''/index.mdx'') = sl"
    using s by (simp add: takeWhile_append2 notSlash_def)
  have d2: "dropWhile notSlash (sl @ ''/index.mdx'') = ''/index.mdx''"
    using s by (simp add: dropWhile_append2 notSlash_def)
  have ne: "cat \<noteq> []" "sl \<noteq> []"
    using a by simp_all
  show "matchIndexPattern p = Some (cat, sl)"
    unfolding matchIndexPattern_def r1 by (simp add: t1 d1 t2 d2 ne)
qed


section \<open>Properties of the cache\<close>

lemma map_of_cacheSet:
  "map_of (cacheSet k v ttl t0 st) k' =
     (if k' = k then Some \<lparr>entry_value = v, expiresAt = t0 + ttl\<rparr> else map_of st k')"
  by (simp add: cacheSet_def update_conv')

lemma cacheGet_absent: "map_of st k = None \<Longrightarrow> cacheGet k t st = (None, st)"
  by (simp add: cacheGet_def)

lemma cacheGet_live:
  "map_of st k = Some e \<Longrightarrow> t \<le> expiresAt e \<Longrightarrow> cacheGet k t st = (Some (entry_value e), st)"
  by (simp add: cacheGet_def)

lemma cacheGet_expired:
  "map_of st k = Some e \<Longrightarrow> expiresAt e < t \<Longrightarrow> cacheGet k t st = (None, AList.delete k st)"
  by (simp add: cacheGet_def)

lemma cacheGet_other_keys: "k' \<noteq> k \<Longrightarrow> map_of (snd (cacheGet k t st)) k' = map_of st k'"
  by (simp add: cacheGet_def split: option.splits)

text \<open>
  Claim C6. After \<^verbatim>\<open>cacheSet(k, v, ttl)\<close> at time \<open>t0\<close> on any store (so \<open>v\<close> is the most
  recently set value, whatever the key held before), a \<^verbatim>\<open>cacheGet(k)\<close> at a time strictly
  before \<open>t0 + ttl\<close> returns \<open>v\<close> and leaves the store as it is; at a time strictly after
  \<open>t0 + ttl\<close> it returns a miss and the entry is gone from the store afterwards, the
  other keys being untouched; and a key that is not in the store is a miss.
\<close>

theorem cacheGet_cacheSet_ttl:
  "(t < t0 + ttl \<longrightarrow>
      cacheGet k t (cacheSet k v ttl t0 st) = (Some v, cacheSet k v ttl t0 st))
   \<and> (t0 + ttl < t \<longrightarrow>
      fst (cacheGet k t (cacheSet k v ttl t0 st)) = None
      \<and> map_of (snd (cacheGet k t (cacheSet k v ttl t0 st))) k = None
      \<and> (\<forall>k'. k' \<noteq> k \<longrightarrow>
            map_of (snd (cacheGet k t (cacheSet k v ttl t0 st))) k' = map_of st k'))
   \<and> (map_of st k = None \<longrightarrow> cacheGet k t st = (None, st))"
proof (intro conjI impI allI)
  let ?e = "\<lparr>entry_value = v, expiresAt = t0 + ttl\<rparr>"
  let ?st = "cacheSet k v ttl t0 st"
  have stored: "map_of ?st k = Some ?e"
    by (simp add: map_of_cacheSet)
  {
    assume "t < t0 + ttl"
    then show "cacheGet k t ?st = (Some v, ?st)"
      using cacheGet_live [OF stored, of t] by simp
  }
  {
    assume late: "t0 + ttl < t"
    then have gone: "cacheGet k t ?st = (None, AList.delete k ?st)"
      using cacheGet_expired [OF stored, of t] by simp
    show "fst (cacheGet k t ?st) = None"
      by (simp add: gone)
    show "map_of (snd (cacheGet k t ?st)) k = None"
      by (simp add: gone delete_conv')
    fix k' assume "k' \<noteq> k"
    then show "map_of (snd (cacheGet k t ?st)) k' = map_of st k'"
      by (simp add: gone map_of_cacheSet)
  }
  {
    assume "map_of st k = None"
    then show "cacheGet k t st = (None, st)"
      by (rule cacheGet_absent)
  }
qed

theorem cacheGet_cacheSet_ttl_witness:
  "(1000::int) < 0 + TTL_REGISTRY
   \<and> cacheGet ''registry'' 1000 (cacheSet ''registry'' (VString ''v'') TTL_REGISTRY 0 [])
       = (Some (VString ''v''), cacheSet ''registry'' (VString ''v'') TTL_REGISTRY 0 [])
   \<and> 0 + TTL_REGISTRY < (3600001::int)
   \<and> fst (cacheGet ''registry'' 3600001
            (cacheSet ''registry'' (VString ''v'') TTL_REGISTRY 0 [])) = None
   \<and> map_of (snd (cacheGet ''registry'' 3600001
            (cacheSet ''registry'' (VString ''v'') TTL_REGISTRY 0 []))) ''registry'' = None
   \<and> map_of ([] :: store) ''registry'' = None
   \<and> cacheGet ''registry'' 5 [] = (None, [])"
  using cacheGet_cacheSet_ttl [of 1000 0 TTL_REGISTRY "''registry''" "VString ''v''" "[]"]
    cacheGet_cacheSet_ttl [of 3600001 0 TTL_REGISTRY "''registry''" "VString ''v''" "[]"]
    cacheGet_cacheSet_ttl [of 5 0 TTL_REGISTRY "''registry''" "VString ''v''" "[]"]
  by (simp add: TTL_REGISTRY_def)

text \<open>
  Claim C10. At the expiry instant itself, when the clock reads exactly the entry's
  \<open>expiresAt\<close>, \<^verbatim>\<open>cacheGet\<close> returns the stored value and keeps the entry: the test is
  \<^verbatim>\<open>Date.now() > entry.expiresAt\<close>, so a miss needs a time strictly after \<open>expiresAt\<close>.
\<close>

theorem cacheGet_at_expiry_instant:
  "cacheGet k (t0 + ttl) (cacheSet k v ttl t0 st) = (Some v, cacheSet k v ttl t0 st)
   \<and> (map_of st k = Some e \<longrightarrow>
        cacheGet k (expiresAt e) st = (Some (entry_value e), st)
        \<and> fst (cacheGet k (expiresAt e + 1) st) = None)"
  by (simp add: cacheGet_def map_of_cacheSet)

theorem cacheGet_at_expiry_instant_witness:
  "cacheGet ''k'' 7 [(''k'', \<lparr>entry_value = VString ''v'', expiresAt = 7\<rparr>)]
     = (Some (VString ''v''), [(''k'', \<lparr>entry_value = VString ''v'', expiresAt = 7\<rparr>)])
   \<and> fst (cacheGet ''k'' 8 [(''k'', \<lparr>entry_value = VString ''v'', expiresAt = 7\<rparr>)]) = None"
  using cacheGet_at_expiry_instant
    [of "''k''" 0 0 "VString ''v''" "[(''k'', \<lparr>entry_value = VString ''v'', expiresAt = 7\<rparr>)]"
        "\<lparr>entry_value = VString ''v'', expiresAt = 7\<rparr>"]
  by simp

section \<open>Cache keys\<close>

















section \<open>The resolver\<close>

text \<open>
  Claim C7, as stated, fails for the category \<^verbatim>\<open>""\<close>: it is supplied, and
  \<^verbatim>\<open>if (category)\<close> sends it to the registry all the same. With a live registry in the
  cache that knows \<^verbatim>\<open>button\<close> under \<^verbatim>\<open>actions\<close>, the result is (actions, button) and
  not the pair (\<^verbatim>\<open>""\<close>, button) of the arguments, and an unknown identifier is a miss.
\<close>

theorem resolveCategory_empty_category_counterexample:
  "fst (resolveCategory noHeader offline offline 0 0 ''button'' (Some []) buttonStore)
     = Inr (Some (''actions'', ''button''))
   \<and> fst (resolveCategory noHeader offline offline 0 0 ''button'' (Some []) buttonStore)
     \<noteq> Inr (Some ([], ''button''))
   \<and> fst (resolveCategory noHeader offline offline 0 0 ''nope'' (Some []) buttonStore) = Inr None"
  by (simp add: resolveCategory_def getRegistry_def cacheGet_def hit_def buttonStore_def buttonInfo_def)

text \<open>
  Claim C7, amended. With a non-empty category, \<^verbatim>\<open>resolveCategory\<close> returns
  (category, component) as given and leaves the store as it is, whatever the network and
  the registry are. With no category, or the empty one, it is \<^verbatim>\<open>getRegistry\<close> that
  decides: when that returns a registry, the result is the (category, slug) of the entry
  the slug map has for the identifier, and a miss (\<^verbatim>\<open>null\<close>) when it has none; when that
  fails, the failure is the result.
\<close>

theorem resolveCategory_cases:
  "(cat \<noteq> [] \<longrightarrow>
      resolveCategory parse api net tg ts component (Some cat) st
        = (Inr (Some (cat, component)), st))
   \<and> ((c = None \<or> c = Some []) \<and> getRegistry parse api net tg ts st = (Inr (VRegistry r), st') \<longrightarrow>
      resolveCategory parse api net tg ts component c st
        = ((case map_of (bySlug r) component of
              Some info \<Rightarrow> Inr (Some (category info, slug info))
            | None \<Rightarrow> Inr None), st'))
   \<and> ((c = None \<or> c = Some []) \<and> getRegistry parse api net tg ts st = (Inl e, st') \<longrightarrow>
      resolveCategory parse api net tg ts component c st = (Inl e, st'))"
  by (auto simp: resolveCategory_def split: option.splits)

theorem resolveCategory_cases_witness:
  "''actions'' \<noteq> []
   \<and> resolveCategory noHeader offline offline 0 0 ''button'' (Some ''actions'') []
       = (Inr (Some (''actions'', ''button'')), [])
   \<and> getRegistry noHeader offline offline 0 0 buttonStore
       = (Inr (VRegistry \<lparr>components = [buttonInfo], bySlug = [(''button'', buttonInfo)]\<rparr>),
          buttonStore)
   \<and> resolveCategory noHeader offline offline 0 0 ''button'' None buttonStore
       = (Inr (Some (''actions'', ''button'')), buttonStore)
   \<and> resolveCategory noHeader offline offline 0 0 ''nope'' None buttonStore
       = (Inr None, buttonStore)
   \<and> getRegistry noHeader offline offline 0 0 [] = (Inl FetchRejected, [])
   \<and> resolveCategory noHeader offline offline 0 0 ''button'' None [] = (Inl FetchRejected, [])"
proof -
  have reg: "getRegistry noHeader offline offline 0 0 buttonStore
       = (Inr (VRegistry \<lparr>components = [buttonInfo], bySlug = [(''button'', buttonInfo)]\<rparr>),
          buttonStore)"
    by (simp add: getRegistry_def cacheGet_def hit_def buttonStore_def)
  have off: "getRegistry noHeader offline offline 0 0 [] = (Inl FetchRejected, [])"
    by (simp add: getRegistry_def cacheGet_def hit_def fetchJson_def offline_def)
  show ?thesis
    using reg off
      resolveCategory_cases [where cat = "''actions''" and component = "''button''"
        and parse = noHeader and api = offline and net = offline and tg = 0 and ts = 0
        and st = "[]" and c = None and st' = "[]" and e = FetchRejected]
      resolveCategory_cases [where cat = "''actions''" and component = "''button''"
        and parse = noHeader and api = offline and net = offline and tg = 0 and ts = 0
        and st = buttonStore and c = None and st' = buttonStore
        and r = "\<lparr>components = [buttonInfo], bySlug = [(''button'', buttonInfo)]\<rparr>"]
      resolveCategory_cases [where cat = "''actions''" and component = "''nope''"
        and parse = noHeader and api = offline and net = offline and tg = 0 and ts = 0
        and st = buttonStore and c = None and st' = buttonStore
        and r = "\<lparr>components = [buttonInfo], bySlug = [(''button'', buttonInfo)]\<rparr>"]
    by (simp add: buttonInfo_def)
qed

text \<open>
  Claim C3. \<^verbatim>\<open>suggestComponent\<close> lower-cases the input and the display name, but not
  the slug. At the registry with the one component of slug \<^verbatim>\<open>DatePicker\<close> and name
  \<^verbatim>\<open>Date Picker\<close>, the input \<^verbatim>\<open>datepicker\<close> is contained in the slug when case is
  ignored, so the rule of the specification suggests the slug; the program returns nothing.
\<close>

theorem suggestComponent_slug_case:
  "suggestComponent ''datepicker'' datePickerRegistry = []
   \<and> suggestComponent_spec ''datepicker'' datePickerRegistry = [''DatePicker'']"
  by (simp add: suggestComponent_def suggestComponent_spec_def datePickerRegistry_def
        toLowerCase_def lowerChar_def)

section \<open>The scraper and the table rendering\<close>

lemma pipesFrom_append:
  "pipesFrom esc (xs @ ys) =
     pipesFrom esc xs + pipesFrom (if xs = [] then esc else last xs = CHR 0x5C) ys"
  by (induction xs arbitrary: esc) simp_all

lemma pipesFrom_no_pipe: "CHR ''|'' \<notin> set s \<Longrightarrow> pipesFrom esc s = 0"
  by (induction s arbitrary: esc) auto

lemma pipesFrom_escapePipes: "pipesFrom esc (escapePipes s) = 0"
  by (induction s arbitrary: esc) (simp_all add: escapePipes_def)

lemma unescapedPipes_escapePipes: "unescapedPipes (escapePipes s) = 0"
  by (simp add: unescapedPipes_def pipesFrom_escapePipes)

lemma pipesFrom_after_name:
  "CHR ''|'' \<notin> set s \<Longrightarrow>
   pipesFrom esc (s @ rest) = pipesFrom (if s = [] then esc else last s = CHR 0x5C) rest"
  by (simp add: pipesFrom_append pipesFrom_no_pipe)

lemma pipesFrom_after_cell:
  "pipesFrom esc (escapePipes s @ rest) =
     pipesFrom (if escapePipes s = [] then esc else last (escapePipes s) = CHR 0x5C) rest"
  by (simp add: pipesFrom_append pipesFrom_escapePipes)

text \<open>A row whose name has no pipe is rendered with the five pipes of the table, whatever
  its type, default and description are.\<close>

lemma formatRow_columns:
  assumes "CHR ''|'' \<notin> set (prop_name p)"
  shows "unescapedPipes (formatRow p) = 5"
  using assms
  by (simp add: unescapedPipes_def formatRow_def pipesFrom_after_name pipesFrom_after_cell)

text \<open>
  Claim C2. \<^verbatim>\<open>formatDevelopData\<close> escapes the pipes of the type, default and
  description cells and writes the name cell as it is (see \<open>formatRow_columns\<close>).
  For a row whose name is \<^verbatim>\<open>a|b\<close> the rendered line keeps that pipe unescaped: it has
  six unescaped pipes where the header line has five, one column more.
\<close>

theorem formatDevelopData_name_pipe:
  "formatDevelopData pipeNameData =
     join [CHR 0x0A]
       [''## Properties'' @ [CHR 0x0A],
        ''| Property | Type | Default | Description |'',
        ''|----------|------|---------|-------------|'',
        ''| `a|b` | string '' @ [CHR 0x5C] @ ''| number | - | d |'',
        []]
   \<and> unescapedPipes ''| Property | Type | Default | Description |'' = 5
   \<and> unescapedPipes (formatRow pipeNameRow) = 6"
  by (simp add: formatDevelopData_def formatSection_def formatRow_def escapePipes_def
        pipeNameData_def pipeNameRow_def unescapedPipes_def)

text \<open>
  The context is closed once the \<^verbatim>\<open>try\<close> block is entered: when the route is set and
  the page is created, a call closes as many contexts as it creates.
\<close>

lemma tryFinally_closes:
  "contextsClosed (snd (tryFinally b ts cat component w)) = contextsClosed w + 1"
  "contextsCreated (snd (tryFinally b ts cat component w)) = contextsCreated w"
  by (simp_all add: tryFinally_def split: sum.splits option.splits)

lemma getBrowser_contexts:
  "contextsClosed (snd (getBrowser b w)) = contextsClosed w"
  "contextsCreated (snd (getBrowser b w)) = contextsCreated w"
  by (simp_all add: getBrowser_def split: option.splits)

lemma scrapeDevelop_closes_after_newPage:
  assumes "route b = None" and "newPage b = None"
  shows "contextsCreated (snd (scrapeDevelop b tg ts cat component w)) + contextsClosed w
       = contextsClosed (snd (scrapeDevelop b tg ts cat component w)) + contextsCreated w"
proof -
  obtain cached st0 where g: "cacheGet (developKey cat component) tg (cache w) = (cached, st0)"
    by (cases "cacheGet (developKey cat component) tg (cache w)")
  obtain r w1 where gb: "getBrowser b (w\<lparr>cache := st0\<rparr>) = (r, w1)"
    by (cases "getBrowser b (w\<lparr>cache := st0\<rparr>)")
  have w1: "contextsClosed w1 = contextsClosed w" "contextsCreated w1 = contextsCreated w"
    using getBrowser_contexts [of b "w\<lparr>cache := st0\<rparr>"] gb by simp_all
  show ?thesis
    using assms w1
    by (simp add: scrapeDevelop_def g gb tryFinally_closes split: option.splits)
qed

text \<open>
  Claim C4. \<^verbatim>\<open>context.route\<close> and \<^verbatim>\<open>context.newPage\<close> are awaited after the context is
  created and before the \<^verbatim>\<open>try\<close> block. With a browser that launches and gives a
  context, and whose \<^verbatim>\<open>newPage\<close> rejects, \<^verbatim>\<open>scrapeDevelop\<close> throws that rejection with
  one context created and none closed.
\<close>

theorem scrapeDevelop_newPage_rejects:
  "scrapeDevelop pageFailsBrowser 0 0 ''actions'' ''button'' emptyWorld =
     (Inl (BrowserError ''browserContext.newPage: Target closed''),
      \<lparr>cache = [], browser = True, contextsCreated = 1, contextsClosed = 0\<rparr>)"
  by (simp add: scrapeDevelop_def cacheGet_def hit_def getBrowser_def pageFailsBrowser_def
        emptyWorld_def)

section \<open>The static content fetcher\<close>

text \<open>
  Claim C5, as stated, fails for a document that is fetched with success and is empty:
  \<^verbatim>\<open>if (content)\<close> is false for it, so it is returned and not cached.
\<close>

theorem fetchMdx_empty_text_counterexample:
  "fetchRaw emptyDocNet (mdxUrl ''actions'' ''button'' Overview) = Inr (Some [])
   \<and> fetchMdx emptyDocNet 0 0 ''actions'' ''button'' Overview []
       = (Inr (Some (VString [])), [])"
  by (simp add: fetchMdx_def fetchRaw_def emptyDocNet_def ok_def cacheGet_def hit_def)

text \<open>
  Claim C5, amended. When the lookup of the key is not a hit, \<^verbatim>\<open>fetchMdx\<close> fetches the
  document. On status 404 it returns \<^verbatim>\<open>null\<close> and the store is as the lookup left it
  (nothing is cached); on another status outside 200 to 299 it raises the raw fetch error
  with that status, the store again as the lookup left it; on a successful fetch of a
  non-empty text it returns the text as it is and the store has it under the key with the
  MDX time to live; on a successful fetch of the empty text it returns the empty text and
  caches nothing.
\<close>

theorem fetchMdx_on_miss:
  "hit (fst (cacheGet (mdxKey cat component t) tg st)) = None \<longrightarrow>
     (net (mdxUrl cat component t) = Response 404 stxt b \<longrightarrow>
        fetchMdx net tg ts cat component t st
          = (Inr None, snd (cacheGet (mdxKey cat component t) tg st)))
   \<and> (net (mdxUrl cat component t) = Response s stxt b \<and> s \<noteq> 404 \<and> \<not> ok s \<longrightarrow>
        fetchMdx net tg ts cat component t st
          = (Inl (GitHubRawFetchError s stxt), snd (cacheGet (mdxKey cat component t) tg st)))
   \<and> (net (mdxUrl cat component t) = Response s stxt (Some body) \<and> ok s \<and> body \<noteq> [] \<longrightarrow>
        fetchMdx net tg ts cat component t st
          = (Inr (Some (VString body)),
             cacheSet (mdxKey cat component t) (VString body) TTL_MDX ts
               (snd (cacheGet (mdxKey cat component t) tg st))))
   \<and> (net (mdxUrl cat component t) = Response s stxt (Some []) \<and> ok s \<longrightarrow>
        fetchMdx net tg ts cat component t st
          = (Inr (Some (VString [])), snd (cacheGet (mdxKey cat component t) tg st)))"
  by (cases "cacheGet (mdxKey cat component t) tg st")
     (auto simp: fetchMdx_def fetchRaw_def ok_def)

theorem fetchMdx_on_miss_witness:
  "hit (fst (cacheGet (mdxKey ''actions'' ''button'' Overview) 0 [])) = None
   \<and> fetchMdx notFoundNet 0 1 ''actions'' ''button'' Overview [] = (Inr None, [])
   \<and> fetchMdx serverErrorNet 0 1 ''actions'' ''button'' Overview []
       = (Inl (GitHubRawFetchError 500 ''Internal Server Error''), [])
   \<and> fetchMdx docNet 0 1 ''actions'' ''button'' Overview []
       = (Inr (Some (VString ''# Button'')),
          [(mdxKey ''actions'' ''button'' Overview,
            \<lparr>entry_value = VString ''# Button'', expiresAt = 1 + TTL_MDX\<rparr>)])
   \<and> fetchMdx emptyDocNet 0 1 ''actions'' ''button'' Overview [] = (Inr (Some (VString [])), [])"
  using
    fetchMdx_on_miss [where cat = "''actions''" and component = "''button''" and t = Overview
      and tg = 0 and ts = 1 and st = "[]" and net = notFoundNet and stxt = "''Not Found''"
      and b = None and s = 500 and body = "''x''"]
    fetchMdx_on_miss [where cat = "''actions''" and component = "''button''" and t = Overview
      and tg = 0 and ts = 1 and st = "[]" and net = serverErrorNet
      and stxt = "''Internal Server Error''" and b = None and s = 500 and body = "''x''"]
    fetchMdx_on_miss [where cat = "''actions''" and component = "''button''" and t = Overview
      and tg = 0 and ts = 1 and st = "[]" and net = docNet and stxt = "''OK''"
      and b = None and s = 200 and body = "''# Button''"]
    fetchMdx_on_miss [where cat = "''actions''" and component = "''button''" and t = Overview
      and tg = 0 and ts = 1 and st = "[]" and net = emptyDocNet and stxt = "''OK''"
      and b = None and s = 200 and body = "''x''"]
  by (simp add: cacheGet_def hit_def cacheSet_def ok_def
        notFoundNet_def serverErrorNet_def docNet_def emptyDocNet_def)

section \<open>The registry builder\<close>

lemma promise_all_Inr_iff: "promise_all rs = Inr xs \<longleftrightarrow> rs = map Inr xs"
proof (induction rs arbitrary: xs)
  case Nil
  show ?case by auto
next
  case (Cons r rs)
  show ?case
  proof (cases r)
    case (Inl e)
    then show ?thesis by (cases xs) auto
  next
    case (Inr x)
    have "promise_all (r # rs) = Inr xs \<longleftrightarrow> (\<exists>ys. promise_all rs = Inr ys \<and> xs = x # ys)"
      using Inr by (auto split: sum.splits)
    also have "\<dots> \<longleftrightarrow> (\<exists>ys. rs = map Inr ys \<and> xs = x # ys)"
      by (simp add: Cons.IH)
    also have "\<dots> \<longleftrightarrow> r # rs = map Inr xs"
      using Inr by (cases xs) auto
    finally show ?thesis .
  qed
qed

lemma promise_all_Inl_iff: "(\<exists>e. promise_all rs = Inl e) \<longleftrightarrow> (\<exists>e. Inl e \<in> set rs)"
proof (induction rs)
  case Nil
  show ?case by simp
next
  case (Cons r rs)
  show ?case
  proof (cases r)
    case (Inl e)
    then show ?thesis by auto
  next
    case (Inr x)
    then show ?thesis using Cons.IH by (cases "promise_all rs") auto
  qed
qed

lemma fetchComponent_Inl_iff:
  "fetchComponent parse net (cat, sl) = Inl e \<longleftrightarrow> fetchRaw net (indexUrl cat sl) = Inl e"
  by (auto simp: fetchComponent_def split: sum.splits option.splits prod.splits)

lemma fetchComponent_404:
  "fetchRaw net (indexUrl cat sl) = Inr None \<Longrightarrow>
   fetchComponent parse net (cat, sl) = Inr \<lparr>slug = sl, name = sl, description = [], category = cat\<rparr>"
  by (simp add: fetchComponent_def)

lemma fetchComponent_Inr:
  "fetchComponent parse net (cat, sl) = Inr c \<Longrightarrow> category c = cat \<and> slug c = sl"
  by (auto simp: fetchComponent_def split: sum.splits option.splits prod.splits if_splits)

lemma fetchRaw_None_iff:
  "fetchRaw net url = Inr None \<longleftrightarrow> (\<exists>stxt b. net url = Response 404 stxt b)"
  by (auto simp: fetchRaw_def split: fetched.splits option.splits)

lemma fetchRaw_Inl_iff:
  "(\<exists>e. fetchRaw net url = Inl e) \<longleftrightarrow>
     net url = Rejected
     \<or> (\<exists>s stxt b. net url = Response s stxt b \<and> s \<noteq> 404 \<and> (\<not> ok s \<or> b = None))"
  by (auto simp: fetchRaw_def split: fetched.splits option.splits)

lemma miss_no_registry:
  assumes "hit (fst (cacheGet k t st)) = None"
  shows "map_of (snd (cacheGet k t st)) k \<noteq> Some \<lparr>entry_value = VRegistry r, expiresAt = x\<rparr>"
  using assms
  by (auto simp: cacheGet_def hit_def delete_conv' split: option.splits if_splits)

lemma components_of_entries:
  assumes "promise_all (map (fetchComponent parse net) es) = Inr cs"
  shows "map (\<lambda>c. (category c, slug c)) cs = es"
proof -
  from assms have eq: "map (fetchComponent parse net) es = map Inr cs"
    by (simp add: promise_all_Inr_iff)
  then have len: "length es = length cs"
    by (metis length_map)
  show ?thesis
  proof (rule nth_equalityI)
    show "length (map (\<lambda>c. (category c, slug c)) cs) = length es"
      using len by simp
  next
    fix i assume "i < length (map (\<lambda>c. (category c, slug c)) cs)"
    then have i: "i < length cs" by simp
    obtain cat sl where e: "es ! i = (cat, sl)" by (cases "es ! i")
    have "map (fetchComponent parse net) es ! i = map Inr cs ! i"
      using eq by simp
    then have "fetchComponent parse net (cat, sl) = Inr (cs ! i)"
      using i len e by simp
    then have "category (cs ! i) = cat \<and> slug (cs ! i) = sl"
      by (rule fetchComponent_Inr)
    then show "map (\<lambda>c. (category c, slug c)) cs ! i = es ! i"
      using i e by simp
  qed
qed

lemma getRegistry_miss:
  assumes "hit (fst (cacheGet ''registry'' tg st)) = None"
  shows "getRegistry parse api net tg ts st =
     (case fetchJson api treeUrl of
        Inl e \<Rightarrow> (Inl e, snd (cacheGet ''registry'' tg st))
      | Inr tree \<Rightarrow>
          (case promise_all (map (fetchComponent parse net) (treeEntries tree)) of
             Inl e \<Rightarrow> (Inl e, snd (cacheGet ''registry'' tg st))
           | Inr cs \<Rightarrow>
               (Inr (VRegistry \<lparr>components = cs, bySlug = buildBySlug cs\<rparr>),
                cacheSet ''registry'' (VRegistry \<lparr>components = cs, bySlug = buildBySlug cs\<rparr>)
                  TTL_REGISTRY ts (snd (cacheGet ''registry'' tg st)))))"
  using assms
  by (cases "cacheGet ''registry'' tg st") (simp add: getRegistry_def split: sum.splits)

lemma getRegistry_success:
  assumes miss: "hit (fst (cacheGet ''registry'' tg st)) = None"
    and tree: "fetchJson api treeUrl = Inr tree"
    and ok: "\<forall>(c, s) \<in> set (treeEntries tree). \<forall>e. fetchRaw net (indexUrl c s) \<noteq> Inl e"
  shows "\<exists>cs. map (\<lambda>c. (category c, slug c)) cs = treeEntries tree
          \<and> promise_all (map (fetchComponent parse net) (treeEntries tree)) = Inr cs
          \<and> getRegistry parse api net tg ts st =
              (Inr (VRegistry \<lparr>components = cs, bySlug = buildBySlug cs\<rparr>),
               cacheSet ''registry'' (VRegistry \<lparr>components = cs, bySlug = buildBySlug cs\<rparr>)
                 TTL_REGISTRY ts (snd (cacheGet ''registry'' tg st)))"
proof -
  have "fetchComponent parse net x \<noteq> Inl e" if "x \<in> set (treeEntries tree)" for x e
    using ok that by (cases x) (auto simp: fetchComponent_Inl_iff)
  then have "\<not> (\<exists>e. Inl e \<in> set (map (fetchComponent parse net) (treeEntries tree)))"
    by (metis (no_types, lifting) imageE list.set_map)
  then have "\<not> (\<exists>e. promise_all (map (fetchComponent parse net) (treeEntries tree)) = Inl e)"
    by (simp add: promise_all_Inl_iff)
  then obtain cs where cs: "promise_all (map (fetchComponent parse net) (treeEntries tree)) = Inr cs"
    by (cases "promise_all (map (fetchComponent parse net) (treeEntries tree))") auto
  show ?thesis
    using cs components_of_entries [OF cs] by (simp add: getRegistry_miss [OF miss] tree)
qed

lemma promise_all_member:
  assumes "promise_all (map f es) = Inr cs" and "x \<in> set es" and "f x = Inr c"
  shows "c \<in> set cs"
proof -
  from assms(1) have "map f es = map Inr cs"
    by (simp add: promise_all_Inr_iff)
  then have "set (map f es) = set (map Inr cs)"
    by simp
  moreover have "Inr c \<in> set (map f es)"
    using assms(2,3) by force
  ultimately show ?thesis
    by auto
qed

text \<open>Two runs of the build on the tree with the slug \<^verbatim>\<open>button\<close> under two categories.\<close>

lemma dupTree_entries: "treeEntries dupTree = [(''actions'', ''button''), (''forms'', ''button'')]"
  by (simp add: treeEntries_def dupTree_def List.map_filter_simps matchIndexPattern_def
        CONTENT_BASE_def notSlash_def)

lemma miss_empty: "hit (fst (cacheGet k t [])) = None" "snd (cacheGet k t []) = []"
  by (simp_all add: cacheGet_def hit_def)

lemma dupApi_tree: "fetchJson dupApi treeUrl = Inr dupTree"
  by (simp add: fetchJson_def dupApi_def ok_def)

lemma notFoundNet_404: "fetchRaw notFoundNet url = Inr None"
  by (simp add: fetchRaw_def notFoundNet_def)

lemma serverErrorNet_500:
  "fetchRaw serverErrorNet url = Inl (GitHubRawFetchError 500 ''Internal Server Error'')"
  by (simp add: fetchRaw_def serverErrorNet_def ok_def)

lemma getRegistry_dup_404:
  "getRegistry noHeader dupApi notFoundNet 0 1 [] =
     (Inr (VRegistry \<lparr>components = [actionsButton, formsButton],
                      bySlug = [(''button'', formsButton)]\<rparr>),
      [(''registry'',
        \<lparr>entry_value = VRegistry \<lparr>components = [actionsButton, formsButton],
                                   bySlug = [(''button'', formsButton)]\<rparr>,
         expiresAt = 1 + TTL_REGISTRY\<rparr>)])"
  by (simp add: getRegistry_def miss_empty [unfolded hit_def] cacheGet_def hit_def dupApi_tree
        dupTree_entries fetchComponent_def notFoundNet_404 buildBySlug_def cacheSet_def
        actionsButton_def formsButton_def)

lemma getRegistry_dup_500:
  "getRegistry noHeader dupApi serverErrorNet 0 1 [] =
     (Inl (GitHubRawFetchError 500 ''Internal Server Error''), [])"
  by (simp add: getRegistry_def cacheGet_def hit_def dupApi_tree
        dupTree_entries fetchComponent_def serverErrorNet_500)

text \<open>
  Claim C1. When the lookup of \<^verbatim>\<open>registry\<close> is not a hit, \<^verbatim>\<open>getRegistry\<close> rebuilds.
  If the tree listing fails, that failure is the result and the store is as the lookup
  left it. If the fetch of the index document of some matched entry fails (any failure of
  \<^verbatim>\<open>fetchRaw\<close>, which a 404 is not), the result is a failure and the store is as the
  lookup left it. Whenever the result is a failure, the store is as the lookup left it and
  holds no registry under the key. If the listing succeeds and no index fetch fails, the
  build succeeds with one component for each matched entry, in tree order, the registry is
  written to the store as one unit, and each entry whose index fetch answered 404 is
  there with its slug as name and the empty description.
\<close>

theorem getRegistry_atomic:
  assumes miss: "hit (fst (cacheGet ''registry'' tg st)) = None"
  shows
  "(fetchJson api treeUrl = Inl e \<longrightarrow>
      getRegistry parse api net tg ts st = (Inl e, snd (cacheGet ''registry'' tg st)))
   \<and> (fetchJson api treeUrl = Inr tree \<and> (cat, sl) \<in> set (treeEntries tree)
        \<and> fetchRaw net (indexUrl cat sl) = Inl e \<longrightarrow>
      (\<exists>e'. getRegistry parse api net tg ts st = (Inl e', snd (cacheGet ''registry'' tg st))))
   \<and> (fst (getRegistry parse api net tg ts st) = Inl e \<longrightarrow>
      snd (getRegistry parse api net tg ts st) = snd (cacheGet ''registry'' tg st)
      \<and> (\<forall>r x. map_of (snd (getRegistry parse api net tg ts st)) ''registry''
                 \<noteq> Some \<lparr>entry_value = VRegistry r, expiresAt = x\<rparr>))
   \<and> (fetchJson api treeUrl = Inr tree
        \<and> (\<forall>(c, s) \<in> set (treeEntries tree). \<forall>e. fetchRaw net (indexUrl c s) \<noteq> Inl e) \<longrightarrow>
      (\<exists>cs. map (\<lambda>c. (category c, slug c)) cs = treeEntries tree
         \<and> getRegistry parse api net tg ts st =
             (Inr (VRegistry \<lparr>components = cs, bySlug = buildBySlug cs\<rparr>),
              cacheSet ''registry'' (VRegistry \<lparr>components = cs, bySlug = buildBySlug cs\<rparr>)
                TTL_REGISTRY ts (snd (cacheGet ''registry'' tg st)))
         \<and> (\<forall>(c, s) \<in> set (treeEntries tree).
               fetchRaw net (indexUrl c s) = Inr None \<longrightarrow>
               \<lparr>slug = s, name = s, description = [], category = c\<rparr> \<in> set cs)))"
proof (intro conjI impI)
  note unfold = getRegistry_miss [OF miss, of parse api net ts]
  {
    assume "fetchJson api treeUrl = Inl e"
    then show "getRegistry parse api net tg ts st = (Inl e, snd (cacheGet ''registry'' tg st))"
      by (simp add: unfold)
  }
  {
    assume a: "fetchJson api treeUrl = Inr tree \<and> (cat, sl) \<in> set (treeEntries tree)
        \<and> fetchRaw net (indexUrl cat sl) = Inl e"
    then have "fetchComponent parse net (cat, sl) = Inl e"
      by (simp add: fetchComponent_Inl_iff)
    then have "Inl e \<in> set (map (fetchComponent parse net) (treeEntries tree))"
      using a by force
    then have "\<exists>e'. promise_all (map (fetchComponent parse net) (treeEntries tree)) = Inl e'"
      unfolding promise_all_Inl_iff by blast
    then show "\<exists>e'. getRegistry parse api net tg ts st
                  = (Inl e', snd (cacheGet ''registry'' tg st))"
      using a by (auto simp: unfold)
  }
  {
    assume f: "fst (getRegistry parse api net tg ts st) = Inl e"
    then show same: "snd (getRegistry parse api net tg ts st) = snd (cacheGet ''registry'' tg st)"
      by (auto simp: unfold split: sum.splits)
    show "\<forall>r x. map_of (snd (getRegistry parse api net tg ts st)) ''registry''
                 \<noteq> Some \<lparr>entry_value = VRegistry r, expiresAt = x\<rparr>"
      unfolding same using miss_no_registry [OF miss] by blast
  }
  {
    assume a: "fetchJson api treeUrl = Inr tree
        \<and> (\<forall>(c, s) \<in> set (treeEntries tree). \<forall>e. fetchRaw net (indexUrl c s) \<noteq> Inl e)"
    then obtain cs where cs: "map (\<lambda>c. (category c, slug c)) cs = treeEntries tree"
      and pa: "promise_all (map (fetchComponent parse net) (treeEntries tree)) = Inr cs"
      and res: "getRegistry parse api net tg ts st =
              (Inr (VRegistry \<lparr>components = cs, bySlug = buildBySlug cs\<rparr>),
               cacheSet ''registry'' (VRegistry \<lparr>components = cs, bySlug = buildBySlug cs\<rparr>)
                 TTL_REGISTRY ts (snd (cacheGet ''registry'' tg st)))"
      using getRegistry_success [OF miss, of api tree net parse ts] by blast
    have "\<lparr>slug = s, name = s, description = [], category = c\<rparr> \<in> set cs"
      if "(c, s) \<in> set (treeEntries tree)" and "fetchRaw net (indexUrl c s) = Inr None" for c s
      using promise_all_member [OF pa that(1) fetchComponent_404 [OF that(2)]] .
    then show "\<exists>cs. map (\<lambda>c. (category c, slug c)) cs = treeEntries tree
         \<and> getRegistry parse api net tg ts st =
             (Inr (VRegistry \<lparr>components = cs, bySlug = buildBySlug cs\<rparr>),
              cacheSet ''registry'' (VRegistry \<lparr>components = cs, bySlug = buildBySlug cs\<rparr>)
                TTL_REGISTRY ts (snd (cacheGet ''registry'' tg st)))
         \<and> (\<forall>(c, s) \<in> set (treeEntries tree).
               fetchRaw net (indexUrl c s) = Inr None \<longrightarrow>
               \<lparr>slug = s, name = s, description = [], category = c\<rparr> \<in> set cs)"
      using cs res by blast
  }
qed

theorem getRegistry_atomic_witness:
  "hit (fst (cacheGet ''registry'' 0 [])) = None
   \<and> fetchJson offline treeUrl = Inl FetchRejected
   \<and> getRegistry noHeader offline notFoundNet 0 1 [] = (Inl FetchRejected, [])
   \<and> fetchJson dupApi treeUrl = Inr dupTree
   \<and> (''actions'', ''button'') \<in> set (treeEntries dupTree)
   \<and> fetchRaw serverErrorNet (indexUrl ''actions'' ''button'')
       = Inl (GitHubRawFetchError 500 ''Internal Server Error'')
   \<and> getRegistry noHeader dupApi serverErrorNet 0 1 []
       = (Inl (GitHubRawFetchError 500 ''Internal Server Error''), [])
   \<and> map_of (snd (getRegistry noHeader dupApi serverErrorNet 0 1 [])) ''registry'' = None
   \<and> fetchRaw notFoundNet (indexUrl ''actions'' ''button'') = Inr None
   \<and> getRegistry noHeader dupApi notFoundNet 0 1 [] =
       (Inr (VRegistry \<lparr>components = [actionsButton, formsButton],
                        bySlug = [(''button'', formsButton)]\<rparr>),
        [(''registry'',
          \<lparr>entry_value = VRegistry \<lparr>components = [actionsButton, formsButton],
                                     bySlug = [(''button'', formsButton)]\<rparr>,
           expiresAt = 1 + TTL_REGISTRY\<rparr>)])
   \<and> actionsButton = \<lparr>slug = ''button'', name = ''button'', description = [], category = ''actions''\<rparr>"
proof -
  have miss: "hit (fst (cacheGet ''registry'' 0 [])) = None"
    by (rule miss_empty)
  have mem: "(''actions'', ''button'') \<in> set (treeEntries dupTree)"
    by (simp add: dupTree_entries)
  have off: "fetchJson offline treeUrl = Inl FetchRejected"
    by (simp add: fetchJson_def offline_def)
  have all404: "\<forall>(c, s) \<in> set (treeEntries dupTree). \<forall>e. fetchRaw notFoundNet (indexUrl c s) \<noteq> Inl e"
    by (simp add: notFoundNet_404)
  have a: "getRegistry noHeader offline notFoundNet 0 1 []
             = (Inl FetchRejected, snd (cacheGet ''registry'' 0 []))"
    using getRegistry_atomic [OF miss, where api = offline and e = FetchRejected
        and parse = noHeader and net = notFoundNet and ts = 1, THEN conjunct1] off
    by (rule mp)
  have b: "\<exists>e'. getRegistry noHeader dupApi serverErrorNet 0 1 []
             = (Inl e', snd (cacheGet ''registry'' 0 []))"
    using getRegistry_atomic [OF miss, where api = dupApi and tree = dupTree
        and cat = "''actions''" and sl = "''button''" and parse = noHeader
        and net = serverErrorNet and ts = 1
        and e = "GitHubRawFetchError 500 ''Internal Server Error''",
        THEN conjunct2, THEN conjunct1]
      conjI [OF dupApi_tree conjI [OF mem serverErrorNet_500]]
    by (rule mp)
  have c: "\<exists>cs. map (\<lambda>c. (category c, slug c)) cs = treeEntries dupTree
         \<and> getRegistry noHeader dupApi notFoundNet 0 1 [] =
             (Inr (VRegistry \<lparr>components = cs, bySlug = buildBySlug cs\<rparr>),
              cacheSet ''registry'' (VRegistry \<lparr>components = cs, bySlug = buildBySlug cs\<rparr>)
                TTL_REGISTRY 1 (snd (cacheGet ''registry'' 0 [])))
         \<and> (\<forall>(c, s) \<in> set (treeEntries dupTree).
               fetchRaw notFoundNet (indexUrl c s) = Inr None \<longrightarrow>
               \<lparr>slug = s, name = s, description = [], category = c\<rparr> \<in> set cs)"
    using getRegistry_atomic [OF miss, where api = dupApi and tree = dupTree
        and parse = noHeader and net = notFoundNet and ts = 1,
        THEN conjunct2, THEN conjunct2, THEN conjunct2]
      conjI [OF dupApi_tree all404]
    by (rule mp)
  have reg: "map_of (snd (getRegistry noHeader dupApi serverErrorNet 0 1 [])) ''registry'' = None"
    using b by (auto simp: miss_empty)
  obtain cs where run: "getRegistry noHeader dupApi notFoundNet 0 1 [] =
             (Inr (VRegistry \<lparr>components = cs, bySlug = buildBySlug cs\<rparr>),
              cacheSet ''registry'' (VRegistry \<lparr>components = cs, bySlug = buildBySlug cs\<rparr>)
                TTL_REGISTRY 1 (snd (cacheGet ''registry'' 0 [])))"
    and degraded: "\<forall>(c, s) \<in> set (treeEntries dupTree).
               fetchRaw notFoundNet (indexUrl c s) = Inr None \<longrightarrow>
               \<lparr>slug = s, name = s, description = [], category = c\<rparr> \<in> set cs"
    using c by blast
  have cs: "cs = [actionsButton, formsButton]"
    using run by (simp add: getRegistry_dup_404)
  have d: "\<lparr>slug = ''button'', name = ''button'', description = [], category = ''actions''\<rparr>
             \<in> set [actionsButton, formsButton]"
    using degraded mem notFoundNet_404 unfolding cs by blast
  show ?thesis
    using a reg d
    by (simp add: miss_empty off dupApi_tree mem serverErrorNet_500 notFoundNet_404
          getRegistry_dup_404 getRegistry_dup_500 actionsButton_def)
qed

lemma find_snoc:
  "find P (xs @ [x]) = (case find P xs of Some y \<Rightarrow> Some y | None \<Rightarrow> if P x then Some x else None)"
  by (induction xs) simp_all

lemma map_of_fold_update:
  "map_of (fold (\<lambda>c m. AList.update (slug c) c m) cs m0) s =
     (case find (\<lambda>c. slug c = s) (rev cs) of Some c \<Rightarrow> Some c | None \<Rightarrow> map_of m0 s)"
  by (induction cs arbitrary: m0) (auto simp: find_snoc update_conv' split: option.splits)

lemma distinct_fold_update:
  "distinct (map fst m0) \<Longrightarrow> distinct (map fst (fold (\<lambda>c m. AList.update (slug c) c m) cs m0))"
  by (induction cs arbitrary: m0) (simp_all add: distinct_update)

lemma map_of_buildBySlug: "map_of (buildBySlug cs) s = find (\<lambda>c. slug c = s) (rev cs)"
  by (simp add: buildBySlug_def map_of_fold_update split: option.splits)

lemma buildBySlug_entries:
  assumes "(k, c) \<in> set (buildBySlug cs)"
  shows "c \<in> set cs \<and> slug c = k"
proof -
  have "distinct (map fst (buildBySlug cs))"
    unfolding buildBySlug_def by (rule distinct_fold_update) simp
  then have "map_of (buildBySlug cs) k = Some c"
    using assms by simp
  then have "find (\<lambda>c. slug c = k) (rev cs) = Some c"
    by (simp add: map_of_buildBySlug)
  then obtain i where "i < length (rev cs)" and "slug (rev cs ! i) = k" and "c = rev cs ! i"
    unfolding find_Some_iff by blast
  then have "c \<in> set (rev cs) \<and> slug c = k"
    using nth_mem [of i "rev cs"] by simp
  then show ?thesis
    by simp
qed

lemma find_rev_last:
  "j < length xs \<Longrightarrow> P (xs ! j) \<Longrightarrow> (\<forall>k. j < k \<and> k < length xs \<longrightarrow> \<not> P (xs ! k))
     \<Longrightarrow> find P (rev xs) = Some (xs ! j)"
proof (induction xs rule: rev_induct)
  case Nil
  then show ?case by simp
next
  case (snoc x xs)
  show ?case
  proof (cases "j = length xs")
    case True
    then show ?thesis using snoc.prems by simp
  next
    case False
    then have j: "j < length xs" using snoc.prems by simp
    have "\<not> P x"
      using snoc.prems(3) j by (auto dest: spec [of _ "length xs"])
    moreover have "find P (rev xs) = Some (xs ! j)"
    proof (rule snoc.IH [OF j])
      show "P (xs ! j)" using snoc.prems(2) j by (simp add: nth_append)
      show "\<forall>k. j < k \<and> k < length xs \<longrightarrow> \<not> P (xs ! k)"
      proof (intro allI impI)
        fix k assume k: "j < k \<and> k < length xs"
        then have "\<not> P ((xs @ [x]) ! k)"
          using snoc.prems(3) by simp
        then show "\<not> P (xs ! k)"
          using k by (simp add: nth_append)
      qed
    qed
    ultimately show ?thesis using j by (simp add: nth_append)
  qed
qed

text \<open>
  Claim C9. When the lookup is not a hit, the listing succeeds and no index fetch fails,
  \<^verbatim>\<open>getRegistry\<close> succeeds, whether or not a slug occurs twice. The components are the
  matched entries in tree order, so two entries with the same slug under different
  categories are both there. The slug map binds a slug to the last component in tree order
  that has it: the component at a position after which the slug does not occur again is
  the one its slug is bound to. Every binding of the slug map is a component of the list,
  under that component's own slug.
\<close>

theorem getRegistry_duplicate_slug:
  assumes miss: "hit (fst (cacheGet ''registry'' tg st)) = None"
    and tree: "fetchJson api treeUrl = Inr tree"
    and fetched: "\<forall>(c, s) \<in> set (treeEntries tree). \<forall>e. fetchRaw net (indexUrl c s) \<noteq> Inl e"
  shows "\<exists>r. fst (getRegistry parse api net tg ts st) = Inr (VRegistry r)
     \<and> map (\<lambda>c. (category c, slug c)) (components r) = treeEntries tree
     \<and> (\<forall>s. map_of (bySlug r) s = find (\<lambda>c. slug c = s) (rev (components r)))
     \<and> (\<forall>j. j < length (components r)
             \<and> (\<forall>k. j < k \<and> k < length (components r)
                    \<longrightarrow> slug (components r ! k) \<noteq> slug (components r ! j))
           \<longrightarrow> map_of (bySlug r) (slug (components r ! j)) = Some (components r ! j))
     \<and> (\<forall>(k, c) \<in> set (bySlug r). c \<in> set (components r) \<and> slug c = k)"
proof -
  obtain cs where cs: "map (\<lambda>c. (category c, slug c)) cs = treeEntries tree"
    and res: "getRegistry parse api net tg ts st =
              (Inr (VRegistry \<lparr>components = cs, bySlug = buildBySlug cs\<rparr>),
               cacheSet ''registry'' (VRegistry \<lparr>components = cs, bySlug = buildBySlug cs\<rparr>)
                 TTL_REGISTRY ts (snd (cacheGet ''registry'' tg st)))"
    using getRegistry_success [OF miss tree fetched, of parse ts] by blast
  let ?r = "\<lparr>components = cs, bySlug = buildBySlug cs\<rparr>"
  have 1: "fst (getRegistry parse api net tg ts st) = Inr (VRegistry ?r)"
    by (simp add: res)
  have 2: "map (\<lambda>c. (category c, slug c)) (components ?r) = treeEntries tree"
    by (simp add: cs)
  have 3: "\<forall>s. map_of (bySlug ?r) s = find (\<lambda>c. slug c = s) (rev (components ?r))"
    by (simp add: map_of_buildBySlug)
  have 4: "\<forall>j. j < length (components ?r)
             \<and> (\<forall>k. j < k \<and> k < length (components ?r)
                    \<longrightarrow> slug (components ?r ! k) \<noteq> slug (components ?r ! j))
           \<longrightarrow> map_of (bySlug ?r) (slug (components ?r ! j)) = Some (components ?r ! j)"
    by (simp add: map_of_buildBySlug find_rev_last)
  have 5: "\<forall>(k, c) \<in> set (bySlug ?r). c \<in> set (components ?r) \<and> slug c = k"
    using buildBySlug_entries by auto
  show ?thesis
    using 1 2 3 4 5 by blast
qed

theorem getRegistry_duplicate_slug_witness:
  "hit (fst (cacheGet ''registry'' 0 [])) = None
   \<and> fetchJson dupApi treeUrl = Inr dupTree
   \<and> treeEntries dupTree = [(''actions'', ''button''), (''forms'', ''button'')]
   \<and> fetchRaw notFoundNet (indexUrl ''actions'' ''button'') = Inr None
   \<and> fetchRaw notFoundNet (indexUrl ''forms'' ''button'') = Inr None
   \<and> fst (getRegistry noHeader dupApi notFoundNet 0 1 [])
       = Inr (VRegistry \<lparr>components = [actionsButton, formsButton],
                         bySlug = [(''button'', formsButton)]\<rparr>)
   \<and> map_of [(''button'', formsButton)] ''button'' = Some formsButton
   \<and> actionsButton \<noteq> formsButton"
proof -
  have miss: "hit (fst (cacheGet ''registry'' 0 [])) = None"
    by (rule miss_empty)
  have fetched: "\<forall>(c, s) \<in> set (treeEntries dupTree). \<forall>e. fetchRaw notFoundNet (indexUrl c s) \<noteq> Inl e"
    by (simp add: notFoundNet_404)
  obtain r where run: "fst (getRegistry noHeader dupApi notFoundNet 0 1 []) = Inr (VRegistry r)"
    and both: "map (\<lambda>c. (category c, slug c)) (components r) = treeEntries dupTree"
    and last: "\<forall>s. map_of (bySlug r) s = find (\<lambda>c. slug c = s) (rev (components r))"
    using getRegistry_duplicate_slug [OF miss dupApi_tree fetched, of noHeader 1] by blast
  have r: "r = \<lparr>components = [actionsButton, formsButton], bySlug = [(''button'', formsButton)]\<rparr>"
    using run by (simp add: getRegistry_dup_404)
  have bound: "map_of [(''button'', formsButton)] ''button'' = Some formsButton"
    using last unfolding r by (simp add: actionsButton_def formsButton_def)
  show ?thesis
    using bound
    by (simp add: miss_empty dupApi_tree dupTree_entries notFoundNet_404 getRegistry_dup_404
          actionsButton_def formsButton_def)
qed

end
